theory Spec2Isabelle
  imports Complex_Main "HOL-Library.Word"
begin

section \<open>Strings\<close>

text \<open>
  A JavaScript string is a sequence of UTF-16 code units. The page uses three
  characters outside Latin-1 in its literals (U+2022, U+2026, U+26A0 U+FE0F) and
  \<open>String.prototype.trim\<close>, whose white space set reaches U+FEFF, so a string is
  modelled as a list of 16-bit words. \<open>str\<close> turns an ASCII literal into such a list.
\<close>

type_synonym jsstring = "16 word list"

definition str :: "string \<Rightarrow> jsstring" where
  "str cs = map (\<lambda>c. of_nat (of_char c)) cs"

text \<open>
  ECMAScript \<open>WhiteSpace\<close> (TAB, VT, FF, ZWNBSP and the Unicode category Zs) together
  with \<open>LineTerminator\<close> (LF, CR, LS, PS): what \<open>trim\<close> strips from both ends.
\<close>

definition is_ws :: "16 word \<Rightarrow> bool" where
  "is_ws c \<longleftrightarrow>
     c = 0x0009 \<or> c = 0x000A \<or> c = 0x000B \<or> c = 0x000C \<or> c = 0x000D \<or>
     c = 0x0020 \<or> c = 0x00A0 \<or> c = 0x1680 \<or> (0x2000 \<le> c \<and> c \<le> 0x200A) \<or>
     c = 0x2028 \<or> c = 0x2029 \<or> c = 0x202F \<or> c = 0x205F \<or> c = 0x3000 \<or>
     c = 0xFEFF"

definition trimStart :: "jsstring \<Rightarrow> jsstring" where
  "trimStart s = dropWhile is_ws s"

definition trimEnd :: "jsstring \<Rightarrow> jsstring" where
  "trimEnd s = rev (dropWhile is_ws (rev s))"

definition trim :: "jsstring \<Rightarrow> jsstring" where
  "trim s = trimEnd (trimStart s)"

text \<open>
  Decimal rendering of an integer, as a template literal renders a number of
  magnitude below \<open>10^21\<close>; from there on the source prints exponent form, which
  is not represented.
\<close>

fun digits :: "nat \<Rightarrow> jsstring" where
  "digits n =
     (if n < 10 then [of_nat (48 + n)]
      else digits (n div 10) @ [of_nat (48 + n mod 10)])"

definition show_int :: "int \<Rightarrow> jsstring" where
  "show_int i = (if i < 0 then str ''-'' @ digits (nat (- i)) else digits (nat i))"

section \<open>Data model of \<open>page.tsx\<close>\<close>

datatype Role = User | Assistant

record ChatMessage =
  role :: Role
  content :: jsstring

text \<open>
  \<open>DEFAULT_RULES\<close> is a three-line template literal; the first two lines end in a
  space before the line break.
\<close>

definition DEFAULT_RULES :: jsstring where
  "DEFAULT_RULES = str
     (''You are a loyal personal assistant that follows the user's custom rules precisely. \<newline>'' @
      ''Provide concise, actionable answers, always prioritizing the user's preferences. \<newline>'' @
      ''If a request conflicts with the user's rules, remind them of the active instructions instead of refusing outright.'')"

text \<open>
  \<open>InitProgressReport\<close> comes from the engine library. \<open>progress\<close> is a JavaScript
  number; it is modelled as a real, so \<open>Math.round\<close> is \<open>\<lfloor>x + 1/2\<rfloor>\<close> and the product
  by 100 is exact, where the source rounds it to a double: the percentage shown can
  differ by one at a tie.
\<close>

record InitProgressReport =
  progress :: real
  timeElapsed :: real
  ptext :: jsstring

definition bullet :: jsstring where "bullet = [0x2022]"
definition ellipsis :: jsstring where "ellipsis = [0x2026]"
definition warning_sign :: jsstring where "warning_sign = [0x26A0, 0xFE0F]"

definition formatProgress :: "InitProgressReport option \<Rightarrow> jsstring" where
  "formatProgress p =
     (case p of
        None \<Rightarrow> []
      | Some r \<Rightarrow>
          (let percentage = (if progress r \<noteq> 0 then Some \<lfloor>progress r * 100 + 1 / 2\<rfloor> else None);
               text = ptext r
           in case percentage of
                None \<Rightarrow> text
              | Some n \<Rightarrow> show_int n @ str ''% '' @ bullet @ str '' '' @ text))"

text \<open>
  An engine instance is opaque to the page. It is identified by the run of \<open>init\<close>
  whose \<open>CreateMLCEngine\<close> call produced it: the index of that run's closure.
\<close>

type_synonym MLCEngine = nat

text \<open>
  One run of the model effect: the model id it loads, the catalogue record it found
  (the \<open>appConfig\<close> passed on), and its local variable \<open>cancelled\<close>.
\<close>

record InitClosure =
  initModelId :: jsstring
  initRecord :: "jsstring option"
  cancelled :: bool

datatype ReqRole = RSystem | RChat Role

record CompletionRequest =
  reqMessages :: "(ReqRole \<times> jsstring) list"
  reqTemperature :: real
  max_tokens :: nat

text \<open>
  One run of \<open>handleSend\<close> past its guards: the engine it talks to, the request it
  sent, and its local variable \<open>aggregate\<close>.
\<close>

record SendClosure =
  sendEngine :: MLCEngine
  sendRequest :: CompletionRequest
  aggregate :: jsstring

text \<open>
  The component state: the \<open>useState\<close> cells, the ref \<open>conversationRef\<close>, the
  closures of the asynchronous work started so far, and the cleanup function React
  holds for the model effect (the index of the closure it cancels). \<open>llamaModels\<close>
  is the module constant filtered from the library's catalogue, given by its ids.
\<close>

record Home =
  llamaModels :: "jsstring list"
  selectedModelId :: jsstring
  engine :: "MLCEngine option"
  engineStatus :: jsstring
  loadProgress :: "InitProgressReport option"
  isLoadingModel :: bool
  systemRules :: jsstring
  messages :: "ChatMessage list"
  userInput :: jsstring
  isStreaming :: bool
  temperature :: nat
  maxTokens :: nat
  conversationRef :: "ChatMessage list"
  inits :: "InitClosure list"
  effectCleanup :: "nat option"
  sends :: "SendClosure list"

section \<open>The model effect\<close>

text \<open>The synchronous part of \<open>init\<close>, up to the call of \<open>CreateMLCEngine\<close>.\<close>

definition init :: "Home \<Rightarrow> Home" where
  "init s =
     s\<lparr>isLoadingModel := True,
       engine := None,
       messages := [],
       engineStatus := str ''Loading '' @ selectedModelId s @ ellipsis,
       loadProgress := None,
       inits := inits s @
         [\<lparr>initModelId = selectedModelId s,
           initRecord = find (\<lambda>m. m = selectedModelId s) (llamaModels s),
           cancelled = False\<rparr>],
       effectCleanup := Some (length (inits s))\<rparr>"

text \<open>The cleanup of the previous run: \<open>cancelled = true\<close> in that run's closure.\<close>

definition runCleanup :: "Home \<Rightarrow> Home" where
  "runCleanup s =
     (case effectCleanup s of
        None \<Rightarrow> s
      | Some k \<Rightarrow>
          s\<lparr>inits := (inits s)[k := (inits s ! k)\<lparr>cancelled := True\<rparr>],
            effectCleanup := None\<rparr>)"

text \<open>
  The effect with dependency \<open>selectedModelId\<close>: React runs the previous cleanup, then
  the body, which returns at once for an empty id.
\<close>

definition modelEffect :: "Home \<Rightarrow> Home" where
  "modelEffect s =
     (let s1 = runCleanup s
      in if selectedModelId s1 = [] then s1 else init s1)"

text \<open>
  \<open>setSelectedModelId\<close> from the select box. Setting a state cell to the value it
  holds re-runs no effect.
\<close>

definition setSelectedModelId :: "jsstring \<Rightarrow> Home \<Rightarrow> Home" where
  "setSelectedModelId v s =
     (if v = selectedModelId s then s else modelEffect (s\<lparr>selectedModelId := v\<rparr>))"

text \<open>The continuations of run \<open>k\<close> of \<open>init\<close>.\<close>

definition initProgressCallback :: "nat \<Rightarrow> InitProgressReport \<Rightarrow> Home \<Rightarrow> Home" where
  "initProgressCallback k p s =
     (if k < length (inits s) then
        (if cancelled (inits s ! k) then s
         else s\<lparr>loadProgress := Some p,
                engineStatus :=
                  (let f = formatProgress (Some p)
                   in if f \<noteq> [] then f else str ''Preparing model'' @ ellipsis)\<rparr>)
      else s)"

definition loadResolved :: "nat \<Rightarrow> Home \<Rightarrow> Home" where
  "loadResolved k s =
     (if k < length (inits s) then
        (if cancelled (inits s ! k) then s
         else s\<lparr>engine := Some k,
                engineStatus := str ''Model ready. Define your custom rules and start chatting.'',
                isLoadingModel := False\<rparr>)
      else s)"

definition loadRejected :: "nat \<Rightarrow> jsstring \<Rightarrow> Home \<Rightarrow> Home" where
  "loadRejected k msg s =
     (if k < length (inits s) then
        (if cancelled (inits s ! k) then s
         else s\<lparr>engineStatus := str ''Failed to load model: '' @ msg,
                isLoadingModel := False\<rparr>)
      else s)"

section \<open>Sending\<close>

definition activeSystemPrompt :: "Home \<Rightarrow> jsstring" where
  "activeSystemPrompt s =
     (let trimmed = trim (systemRules s)
      in if length trimmed > 0 then trimmed else DEFAULT_RULES)"

definition canSend :: "Home \<Rightarrow> bool" where
  "canSend s \<longleftrightarrow>
     engine s \<noteq> None \<and> \<not> isStreaming s \<and> length (trim (userInput s)) > 0 \<and>
     \<not> isLoadingModel s"

text \<open>
  The updater passed to \<open>setMessages\<close> in the chunk loop, after \<open>getMessage\<close> and in the
  \<open>catch\<close> block: the same function of \<open>prev\<close> up to the content written.
\<close>

definition overwriteLast :: "jsstring \<Rightarrow> ChatMessage list \<Rightarrow> ChatMessage list" where
  "overwriteLast c prev =
     (if prev \<noteq> [] \<and> role (last prev) = Assistant
      then prev[length prev - 1 := \<lparr>role = Assistant, content = c\<rparr>]
      else prev)"

text \<open>\<open>handleSend\<close> up to its first \<open>await\<close>.\<close>

definition handleSend :: "Home \<Rightarrow> Home" where
  "handleSend s =
     (case engine s of
        None \<Rightarrow> s
      | Some e \<Rightarrow>
          (let prompt = trim (userInput s)
           in if prompt = [] then s
              else
                (let userMessage = \<lparr>role = User, content = prompt\<rparr>;
                     history = conversationRef s @ [userMessage];
                     assistantPlaceholder = \<lparr>role = Assistant, content = []\<rparr>
                 in s\<lparr>userInput := [],
                      messages := history @ [assistantPlaceholder],
                      isStreaming := True,
                      sends := sends s @
                        [\<lparr>sendEngine = e,
                          sendRequest =
                            \<lparr>reqMessages =
                               (RSystem, activeSystemPrompt s) #
                               map (\<lambda>m. (RChat (role m), content m)) history,
                             reqTemperature = real (temperature s) / 10,
                             max_tokens = maxTokens s\<rparr>,
                          aggregate = []\<rparr>]\<rparr>)))"

text \<open>The continuations of run \<open>g\<close> of \<open>handleSend\<close>.\<close>

definition streamChunk :: "nat \<Rightarrow> jsstring option \<Rightarrow> Home \<Rightarrow> Home" where
  "streamChunk g delta s =
     (if g < length (sends s) then
        (let snapshot = aggregate (sends s ! g) @ (case delta of None \<Rightarrow> [] | Some d \<Rightarrow> d)
         in s\<lparr>sends := (sends s)[g := (sends s ! g)\<lparr>aggregate := snapshot\<rparr>],
              messages := overwriteLast snapshot (messages s)\<rparr>)
      else s)"

text \<open>
  The stream is exhausted and \<open>getMessage\<close> has resolved; \<open>None\<close> stands for a result
  that is not a string.
\<close>

definition streamDone :: "nat \<Rightarrow> jsstring option \<Rightarrow> Home \<Rightarrow> Home" where
  "streamDone g finalReply s =
     (if g < length (sends s) then
        s\<lparr>messages :=
            (case finalReply of
               None \<Rightarrow> messages s
             | Some f \<Rightarrow> if length f > 0 then overwriteLast f (messages s) else messages s),
          isStreaming := False\<rparr>
      else s)"

text \<open>
  Any of the awaited calls threw; \<open>msg\<close> is \<open>error.message\<close> or \<open>String(error)\<close>.
\<close>

definition streamFailed :: "nat \<Rightarrow> jsstring \<Rightarrow> Home \<Rightarrow> Home" where
  "streamFailed g msg s =
     (if g < length (sends s) then
        s\<lparr>messages := overwriteLast (warning_sign @ str '' '' @ msg) (messages s),
          isStreaming := False\<rparr>
      else s)"

definition handleReset :: "Home \<Rightarrow> Home" where
  "handleReset s =
     s\<lparr>messages := [],
       engineStatus := str ''Conversation cleared. You can adjust rules and start again.''\<rparr>"

section \<open>Events\<close>

text \<open>
  Everything that can run between two renders: the handlers of the form controls and
  the continuations of the pending asynchronous work. The send button and the prompt
  box carry \<open>disabled\<close> attributes, so their handlers run only when enabled.
\<close>

datatype event =
    SelectModel jsstring
  | LoadProgress nat InitProgressReport
  | LoadResolved nat
  | LoadRejected nat jsstring
  | RulesChange jsstring
  | RestoreDefaultRules
  | ResetClick
  | TemperatureChange nat
  | MaxTokensChange nat
  | InputChange jsstring
  | EnterKey
  | SendClick
  | StreamChunk nat "jsstring option"
  | StreamDone nat "jsstring option"
  | StreamFailed nat jsstring

definition promptDisabled :: "Home \<Rightarrow> bool" where
  "promptDisabled s \<longleftrightarrow> engine s = None \<or> isStreaming s \<or> isLoadingModel s"

fun handle :: "event \<Rightarrow> Home \<Rightarrow> Home" where
  "handle (SelectModel v) s = setSelectedModelId v s"
| "handle (LoadProgress k p) s = initProgressCallback k p s"
| "handle (LoadResolved k) s = loadResolved k s"
| "handle (LoadRejected k msg) s = loadRejected k msg s"
| "handle (RulesChange v) s = s\<lparr>systemRules := v\<rparr>"
| "handle RestoreDefaultRules s = s\<lparr>systemRules := DEFAULT_RULES\<rparr>"
| "handle ResetClick s = handleReset s"
| "handle (TemperatureChange n) s = s\<lparr>temperature := n\<rparr>"
| "handle (MaxTokensChange n) s = s\<lparr>maxTokens := n\<rparr>"
| "handle (InputChange v) s = (if promptDisabled s then s else s\<lparr>userInput := v\<rparr>)"
| "handle EnterKey s = (if promptDisabled s then s else if canSend s then handleSend s else s)"
| "handle SendClick s = (if \<not> canSend s then s else handleSend s)"
| "handle (StreamChunk g delta) s = streamChunk g delta s"
| "handle (StreamDone g finalReply) s = streamDone g finalReply s"
| "handle (StreamFailed g msg) s = streamFailed g msg s"

text \<open>The effect that copies \<open>messages\<close> into \<open>conversationRef\<close> after a render.\<close>

definition syncRef :: "Home \<Rightarrow> Home" where
  "syncRef s = s\<lparr>conversationRef := messages s\<rparr>"

definition step :: "event \<Rightarrow> Home \<Rightarrow> Home" where
  "step e s = syncRef (handle e s)"

fun run :: "event list \<Rightarrow> Home \<Rightarrow> Home" where
  "run [] s = s"
| "run (e # es) s = run es (step e s)"

text \<open>The first render and its effects.\<close>

definition initial :: "jsstring list \<Rightarrow> Home" where
  "initial catalogue =
     \<lparr>llamaModels = catalogue,
      selectedModelId = (case catalogue of [] \<Rightarrow> [] | m # _ \<Rightarrow> m),
      engine = None,
      engineStatus = str ''Select a model to initialize your assistant.'',
      loadProgress = None,
      isLoadingModel = False,
      systemRules = DEFAULT_RULES,
      messages = [],
      userInput = [],
      isStreaming = False,
      temperature = 6,
      maxTokens = 512,
      conversationRef = [],
      inits = [],
      effectCleanup = None,
      sends = []\<rparr>"

definition mount :: "jsstring list \<Rightarrow> Home" where
  "mount catalogue = syncRef (modelEffect (initial catalogue))"

section \<open>Classes of events and example runs\<close>

text \<open>The three writes a run of \<open>handleSend\<close> makes after its first \<open>await\<close>.\<close>

fun streamEvent :: "event \<Rightarrow> bool" where
  "streamEvent (StreamChunk g delta) = True"
| "streamEvent (StreamDone g finalReply) = True"
| "streamEvent (StreamFailed g msg) = True"
| "streamEvent e = False"

text \<open>
  What arrives from pending asynchronous work, as opposed to what the user does:
  the continuations of the loads and of the streams.
\<close>

fun arrival :: "event \<Rightarrow> bool" where
  "arrival (LoadProgress k p) = True"
| "arrival (LoadResolved k) = True"
| "arrival (LoadRejected k msg) = True"
| "arrival e = streamEvent e"

text \<open>
  The events that leave run \<open>g\<close> of \<open>handleSend\<close> to itself while it streams: its own
  chunks, and everything that is neither a reset, nor a model selection, nor an event
  of a stream.
\<close>

fun undisturbed :: "nat \<Rightarrow> event \<Rightarrow> bool" where
  "undisturbed g (StreamChunk g' delta) = (g' = g)"
| "undisturbed g (StreamDone g' finalReply) = False"
| "undisturbed g (StreamFailed g' msg) = False"
| "undisturbed g ResetClick = False"
| "undisturbed g (SelectModel v) = False"
| "undisturbed g e = True"

text \<open>The text run \<open>g\<close> has accumulated in \<open>aggregate\<close> over a list of events.\<close>

fun streamed :: "nat \<Rightarrow> event list \<Rightarrow> jsstring" where
  "streamed g [] = []"
| "streamed g (StreamChunk g' delta # es) =
     (if g' = g then (case delta of None \<Rightarrow> [] | Some d \<Rightarrow> d) else []) @ streamed g es"
| "streamed g (e # es) = streamed g es"

text \<open>
  A catalogue of two models, and the states of a session on it: the first model has
  loaded; the prompt \<open>Hello\<close> is typed; it is sent and the first chunk \<open>Hi\<close> has
  arrived.
\<close>

definition catalogueAB :: "jsstring list" where
  "catalogueAB = [str ''Llama-A'', str ''Llama-B'']"

definition readyA :: Home where
  "readyA = run [LoadResolved 0] (mount catalogueAB)"

definition typedHello :: Home where
  "typedHello = run [InputChange (str '' Hello '')] readyA"

definition streamingHi :: Home where
  "streamingHi = run [SendClick, StreamChunk 0 (Some (str ''Hi''))] typedHello"

definition requestHello :: CompletionRequest where
  "requestHello =
     \<lparr>reqMessages = [(RSystem, activeSystemPrompt readyA), (RChat User, str ''Hello'')],
      reqTemperature = 6 / 10, max_tokens = 512\<rparr>"

text \<open>What one event adds to the \<open>aggregate\<close> of run \<open>g\<close>.\<close>

fun delta_of :: "nat \<Rightarrow> event \<Rightarrow> jsstring" where
  "delta_of g (StreamChunk g' delta) = (if g' = g then (case delta of None \<Rightarrow> [] | Some d \<Rightarrow> d) else [])"
| "delta_of g e = []"


section \<open>Basic facts\<close>

lemmas handler_defs =
  init_def runCleanup_def modelEffect_def setSelectedModelId_def initProgressCallback_def
  loadResolved_def loadRejected_def handleSend_def streamChunk_def streamDone_def
  streamFailed_def handleReset_def syncRef_def step_def promptDisabled_def canSend_def

lemmas eval_defs =
  handler_defs mount_def initial_def catalogueAB_def str_def trim_def trimStart_def
  trimEnd_def is_ws_def activeSystemPrompt_def overwriteLast_def Let_def

lemma str_Nil: "str [] = []"
  by (simp add: str_def)

lemma str_eq_Nil: "str cs = [] \<longleftrightarrow> cs = []"
  by (simp add: str_def)

lemma str_append: "str (a @ b) = str a @ str b"
  by (simp add: str_def)

lemma unit_of_char: "unat (of_nat (of_char c) :: 16 word) = of_char c"
proof -
  have "(of_char c :: nat) < 256" by simp
  also have "(256 :: nat) < 2 ^ LENGTH(16)" by simp
  finally show ?thesis by (simp add: unat_of_nat)
qed

lemma unit_inj: "(of_nat (of_char c) :: 16 word) = of_nat (of_char d) \<longleftrightarrow> c = d"
proof
  assume "(of_nat (of_char c) :: 16 word) = of_nat (of_char d)"
  then have "unat (of_nat (of_char c) :: 16 word) = unat (of_nat (of_char d) :: 16 word)"
    by simp
  then have "(of_char c :: nat) = of_char d" by (simp only: unit_of_char)
  then show "c = d" by simp
qed simp

lemma str_inj: "str a = str b \<longleftrightarrow> a = b"
proof -
  have "inj (\<lambda>c. of_nat (of_char c) :: 16 word)"
    by (rule injI) (simp add: unit_inj)
  then show ?thesis
    unfolding str_def by (simp add: inj_map_eq_map)
qed

lemmas str_simps = str_eq_Nil str_inj str_append [symmetric]

lemma readyA_eq:
  "readyA =
     \<lparr>llamaModels = catalogueAB,
      selectedModelId = str ''Llama-A'',
      engine = Some 0,
      engineStatus = str ''Model ready. Define your custom rules and start chatting.'',
      loadProgress = None,
      isLoadingModel = False,
      systemRules = DEFAULT_RULES,
      messages = [],
      userInput = [],
      isStreaming = False,
      temperature = 6,
      maxTokens = 512,
      conversationRef = [],
      inits = [\<lparr>initModelId = str ''Llama-A'', initRecord = Some (str ''Llama-A''), cancelled = False\<rparr>],
      effectCleanup = Some 0,
      sends = []\<rparr>"
  by (simp add: readyA_def eval_defs)

lemma typedHello_eq: "typedHello = readyA\<lparr>userInput := str '' Hello ''\<rparr>"
  by (simp add: typedHello_def readyA_eq step_def syncRef_def promptDisabled_def)

lemma trim_Hello: "trim (str '' Hello '') = str ''Hello''"
  by (simp add: str_def trim_def trimStart_def trimEnd_def is_ws_def)

lemma streamingHi_eq:
  "streamingHi =
     readyA\<lparr>messages := [\<lparr>role = User, content = str ''Hello''\<rparr>, \<lparr>role = Assistant, content = str ''Hi''\<rparr>],
            conversationRef := [\<lparr>role = User, content = str ''Hello''\<rparr>, \<lparr>role = Assistant, content = str ''Hi''\<rparr>],
            isStreaming := True,
            sends := [\<lparr>sendEngine = 0, sendRequest = requestHello, aggregate = str ''Hi''\<rparr>]\<rparr>"
  by (simp add: streamingHi_def typedHello_eq readyA_eq trim_Hello requestHello_def handler_defs
      activeSystemPrompt_def overwriteLast_def Let_def str_simps)


lemma overwriteLast_cases:
  "overwriteLast c prev = prev \<or>
   (prev \<noteq> [] \<and> role (last prev) = Assistant \<and>
    overwriteLast c prev = butlast prev @ [\<lparr>role = Assistant, content = c\<rparr>])"
proof (cases "prev \<noteq> [] \<and> role (last prev) = Assistant")
  case True
  then obtain ys y where p: "prev = ys @ [y]"
    by (metis append_butlast_last_id)
  with True show ?thesis by (simp add: overwriteLast_def)
next
  case False
  then show ?thesis by (auto simp: overwriteLast_def)
qed

lemma overwriteLast_frame:
  "prev = [] \<or> role (last prev) = User \<Longrightarrow> overwriteLast c prev = prev"
  by (auto simp: overwriteLast_def)

lemma overwriteLast_assistant:
  "overwriteLast c (ys @ [\<lparr>role = Assistant, content = d\<rparr>]) = ys @ [\<lparr>role = Assistant, content = c\<rparr>]"
  by (simp add: overwriteLast_def)

lemma overwriteLast_Nil: "overwriteLast c [] = []"
  by (simp add: overwriteLast_def)

lemma streamEvent_messages:
  "streamEvent e \<Longrightarrow> \<exists>c. messages (handle e s) = messages s \<or> messages (handle e s) = overwriteLast c (messages s)"
  by (cases e) (auto simp: streamChunk_def streamDone_def streamFailed_def Let_def split: option.splits)

lemma messages_step: "messages (step e s) = messages (handle e s)"
  by (simp add: step_def syncRef_def)

section \<open>The writes of a generation\<close>

text \<open>
  C9. Each write a generation makes to the conversation (a chunk, the final text,
  the error text) either leaves it as it was or, only when it is non-empty and its
  last message is an assistant message, replaces that last message by an assistant
  message; every earlier message stays, and a conversation that is empty or ends in
  a user message is not changed.
\<close>

theorem generation_writes_frame:
  assumes "streamEvent e"
  shows "messages (step e s) = messages s \<or>
         (messages s \<noteq> [] \<and> role (last (messages s)) = Assistant \<and>
          (\<exists>c. messages (step e s) = butlast (messages s) @ [\<lparr>role = Assistant, content = c\<rparr>]))"
proof -
  from streamEvent_messages [OF assms] obtain c where
    "messages (handle e s) = messages s \<or> messages (handle e s) = overwriteLast c (messages s)"
    by blast
  with overwriteLast_cases [of c "messages s"] show ?thesis
    unfolding messages_step by metis
qed

theorem generation_writes_frame_witness:
  "streamEvent (StreamChunk 0 (Some (str '' there''))) \<and>
   messages (step (StreamChunk 0 (Some (str '' there''))) streamingHi) =
     butlast (messages streamingHi) @ [\<lparr>role = Assistant, content = str ''Hi there''\<rparr>]"
proof -
  have m: "messages (step (StreamChunk 0 (Some (str '' there''))) streamingHi) =
           [\<lparr>role = User, content = str ''Hello''\<rparr>, \<lparr>role = Assistant, content = str ''Hi there''\<rparr>]"
    by (simp add: streamingHi_eq step_def syncRef_def streamChunk_def overwriteLast_def Let_def str_simps)
  have n: "messages (step (StreamChunk 0 (Some (str '' there''))) streamingHi) \<noteq> messages streamingHi"
    by (simp add: m) (simp add: streamingHi_eq str_simps)
  from generation_writes_frame [of "StreamChunk 0 (Some (str '' there''))" streamingHi] n m
  show ?thesis by (simp add: streamingHi_eq)
qed

section \<open>The system prompt\<close>

lemma rev_dropWhile_split:
  "y = rev (dropWhile P (rev y)) @ rev (takeWhile P (rev y))"
proof -
  have "rev (rev (dropWhile P (rev y)) @ rev (takeWhile P (rev y))) = rev y"
    by simp
  then show ?thesis
    by (metis rev_is_rev_conv)
qed

lemma trim_decomp:
  "\<exists>pre suf. x = pre @ trim x @ suf \<and> (\<forall>c\<in>set pre. is_ws c) \<and> (\<forall>c\<in>set suf. is_ws c)"
proof -
  define y where "y = dropWhile is_ws x"
  have x: "x = takeWhile is_ws x @ y"
    by (simp add: y_def)
  have t: "trim x = rev (dropWhile is_ws (rev y))"
    by (simp add: trim_def trimStart_def trimEnd_def y_def)
  have y: "y = trim x @ rev (takeWhile is_ws (rev y))"
    unfolding t by (rule rev_dropWhile_split)
  have 1: "\<forall>c\<in>set (takeWhile is_ws x). is_ws c"
    by (auto dest: set_takeWhileD)
  have 2: "\<forall>c\<in>set (rev (takeWhile is_ws (rev y))). is_ws c"
    by (auto dest: set_takeWhileD)
  from x y have "x = takeWhile is_ws x @ trim x @ rev (takeWhile is_ws (rev y))"
    by simp
  with 1 2 show ?thesis by blast
qed

lemma trim_ends:
  assumes "trim x \<noteq> []"
  shows "\<not> is_ws (hd (trim x)) \<and> \<not> is_ws (last (trim x))"
proof -
  define y where "y = dropWhile is_ws x"
  have t: "trim x = rev (dropWhile is_ws (rev y))"
    by (simp add: trim_def trimStart_def trimEnd_def y_def)
  with assms have ne: "dropWhile is_ws (rev y) \<noteq> []" by simp
  then have l: "\<not> is_ws (last (trim x))"
    by (simp add: t last_rev hd_dropWhile)
  have y: "y = trim x @ rev (takeWhile is_ws (rev y))"
    unfolding t by (rule rev_dropWhile_split)
  with assms have yne: "y \<noteq> []" and h: "hd y = hd (trim x)"
    by (metis append_is_Nil_conv, metis hd_append2)
  from yne have "\<not> is_ws (hd y)"
    unfolding y_def by (rule hd_dropWhile)
  with h l show ?thesis by simp
qed

lemma trim_all_ws:
  assumes "\<forall>c\<in>set x. is_ws c"
  shows "trim x = []"
proof -
  from assms have d: "dropWhile is_ws x = []"
    by (simp only: dropWhile_eq_Nil_conv)
  show ?thesis
    unfolding trim_def trimStart_def trimEnd_def d by simp
qed

lemma DEFAULT_RULES_nonempty: "DEFAULT_RULES \<noteq> []"
  by (simp add: DEFAULT_RULES_def str_eq_Nil)

lemma activeSystemPrompt_eq:
  "activeSystemPrompt s =
     (if trim (systemRules s) \<noteq> [] then trim (systemRules s) else DEFAULT_RULES)"
  by (simp add: activeSystemPrompt_def Let_def)

lemma handleSend_request:
  assumes "engine s \<noteq> None" and "trim (userInput s) \<noteq> []"
  shows "reqMessages (sendRequest (last (sends (handleSend s)))) =
           (RSystem, activeSystemPrompt s) #
           map (\<lambda>m. (RChat (role m), content m))
             (conversationRef s @ [\<lparr>role = User, content = trim (userInput s)\<rparr>])"
  using assms by (auto simp: handleSend_def Let_def)

text \<open>
  C10. The system prompt is the rulebook with its surrounding white space removed
  when something remains, and \<open>DEFAULT_RULES\<close> otherwise; it is never empty, a
  rulebook of white space alone gives \<open>DEFAULT_RULES\<close>, and it is the content of the
  first message of the request every run of \<open>handleSend\<close> sends.
\<close>

theorem system_prompt_rules_or_default:
  "activeSystemPrompt s =
     (if trim (systemRules s) \<noteq> [] then trim (systemRules s) else DEFAULT_RULES) \<and>
   activeSystemPrompt s \<noteq> [] \<and>
   ((\<forall>c\<in>set (systemRules s). is_ws c) \<longrightarrow> activeSystemPrompt s = DEFAULT_RULES) \<and>
   (\<exists>pre suf. systemRules s = pre @ trim (systemRules s) @ suf \<and>
      (\<forall>c\<in>set pre. is_ws c) \<and> (\<forall>c\<in>set suf. is_ws c)) \<and>
   (trim (systemRules s) \<noteq> [] \<longrightarrow>
      \<not> is_ws (hd (trim (systemRules s))) \<and> \<not> is_ws (last (trim (systemRules s)))) \<and>
   (engine s \<noteq> None \<and> trim (userInput s) \<noteq> [] \<longrightarrow>
      hd (reqMessages (sendRequest (last (sends (handleSend s))))) =
        (RSystem, activeSystemPrompt s))"
proof -
  have a: "activeSystemPrompt s \<noteq> []"
    by (simp add: activeSystemPrompt_eq DEFAULT_RULES_nonempty)
  have b: "(\<forall>c\<in>set (systemRules s). is_ws c) \<longrightarrow> activeSystemPrompt s = DEFAULT_RULES"
    by (simp add: activeSystemPrompt_eq trim_all_ws)
  have c: "engine s \<noteq> None \<and> trim (userInput s) \<noteq> [] \<longrightarrow>
      hd (reqMessages (sendRequest (last (sends (handleSend s))))) =
        (RSystem, activeSystemPrompt s)"
    by (simp add: handleSend_request)
  from activeSystemPrompt_eq [of s] a b c trim_decomp [of "systemRules s"] trim_ends [of "systemRules s"]
  show ?thesis by blast
qed

lemma blank_ws: "\<forall>c\<in>set (str '' \<newline> ''). is_ws c"
  by (simp add: str_def is_ws_def)

theorem system_prompt_rules_or_default_witness:
  "list_all is_ws (systemRules (typedHello\<lparr>systemRules := str '' \<newline> ''\<rparr>)) \<and>
   engine (typedHello\<lparr>systemRules := str '' \<newline> ''\<rparr>) \<noteq> None \<and>
   trim (userInput (typedHello\<lparr>systemRules := str '' \<newline> ''\<rparr>)) \<noteq> [] \<and>
   hd (reqMessages (sendRequest (last (sends (handleSend (typedHello\<lparr>systemRules := str '' \<newline> ''\<rparr>)))))) =
     (RSystem, DEFAULT_RULES)"
proof -
  let ?s = "typedHello\<lparr>systemRules := str '' \<newline> ''\<rparr>"
  have 1: "\<forall>c\<in>set (systemRules ?s). is_ws c"
    using blank_ws by simp
  have 2: "engine ?s \<noteq> None"
    by (simp add: typedHello_eq readyA_eq)
  have 3: "trim (userInput ?s) \<noteq> []"
    by (simp add: typedHello_eq trim_Hello str_eq_Nil)
  from 1 have 4: "list_all is_ws (systemRules ?s)"
    by (simp only: list_all_iff)
  from system_prompt_rules_or_default [of ?s] 1 2 3
  have "hd (reqMessages (sendRequest (last (sends (handleSend ?s))))) = (RSystem, DEFAULT_RULES)"
    by metis
  with 2 3 4 show ?thesis
    by (intro conjI)
qed

section \<open>Rejected submissions\<close>

text \<open>
  C8. When the prompt box holds nothing but white space, \<open>handleSend\<close> returns the
  state it was given, and so do the send button and the Enter key: no message is
  appended, the conversation and the status text are as before.
\<close>

theorem empty_prompt_rejected:
  "trim (userInput s) = [] \<Longrightarrow>
     handleSend s = s \<and> handle SendClick s = s \<and> handle EnterKey s = s"
  by (simp add: handleSend_def canSend_def split: option.splits)

lemma trim_blank: "trim (str '' \<newline> '') = []"
  by (rule trim_all_ws) (rule blank_ws)

theorem empty_prompt_rejected_witness:
  "trim (userInput (readyA\<lparr>userInput := str '' \<newline> ''\<rparr>)) = [] \<and>
   handleSend (readyA\<lparr>userInput := str '' \<newline> ''\<rparr>) = readyA\<lparr>userInput := str '' \<newline> ''\<rparr> \<and>
   handle SendClick (readyA\<lparr>userInput := str '' \<newline> ''\<rparr>) = readyA\<lparr>userInput := str '' \<newline> ''\<rparr>"
proof -
  have h: "trim (userInput (readyA\<lparr>userInput := str '' \<newline> ''\<rparr>)) = []"
    by (simp add: trim_blank)
  from empty_prompt_rejected [OF h] h show ?thesis by simp
qed

text \<open>
  C4. While \<open>isStreaming\<close> is true the send button is disabled and the Enter key
  finds \<open>canSend\<close> false, so a second submission changes nothing: the conversation
  stays and no further run of \<open>handleSend\<close> is started.
\<close>

theorem submit_while_streaming_noop:
  assumes "isStreaming s"
  shows "handle SendClick s = s \<and> handle EnterKey s = s \<and>
         messages (step SendClick s) = messages s \<and> sends (step SendClick s) = sends s \<and>
         messages (step EnterKey s) = messages s \<and> sends (step EnterKey s) = sends s"
  using assms by (simp add: canSend_def promptDisabled_def step_def syncRef_def)

theorem submit_while_streaming_noop_witness:
  "isStreaming (streamingHi\<lparr>userInput := str ''again''\<rparr>) \<and>
   handle SendClick (streamingHi\<lparr>userInput := str ''again''\<rparr>) = streamingHi\<lparr>userInput := str ''again''\<rparr> \<and>
   messages (step EnterKey (streamingHi\<lparr>userInput := str ''again''\<rparr>)) =
     [\<lparr>role = User, content = str ''Hello''\<rparr>, \<lparr>role = Assistant, content = str ''Hi''\<rparr>]"
proof -
  have h: "isStreaming (streamingHi\<lparr>userInput := str ''again''\<rparr>)"
    by (simp add: streamingHi_eq)
  from submit_while_streaming_noop [OF h] h show ?thesis
    by (simp add: streamingHi_eq)
qed

section \<open>Selecting a model\<close>

text \<open>
  C7, as the code has it. Selecting a model other than the selected one sets the
  loading flag and the status text \<open>Loading <id>...\<close>, sets the engine to null and
  empties the conversation, all before \<open>CreateMLCEngine\<close> is awaited; the new run of
  \<open>init\<close> is then pending and not cancelled. Selecting the model that is already
  selected changes nothing.
\<close>

theorem select_sets_loading:
  assumes "v \<noteq> selectedModelId s" and "v \<noteq> []"
  shows "isLoadingModel (step (SelectModel v) s) \<and>
         engine (step (SelectModel v) s) = None \<and>
         messages (step (SelectModel v) s) = [] \<and>
         engineStatus (step (SelectModel v) s) = str ''Loading '' @ v @ ellipsis \<and>
         loadProgress (step (SelectModel v) s) = None \<and>
         inits (step (SelectModel v) s) =
           inits (runCleanup s) @
             [\<lparr>initModelId = v, initRecord = find (\<lambda>m. m = v) (llamaModels s), cancelled = False\<rparr>] \<and>
         handle (SelectModel (selectedModelId s)) s = s"
  using assms
  by (simp add: step_def syncRef_def setSelectedModelId_def modelEffect_def init_def runCleanup_def
      split: option.splits)

theorem select_sets_loading_witness:
  "str ''Llama-B'' \<noteq> selectedModelId streamingHi \<and> str ''Llama-B'' \<noteq> [] \<and>
   engine streamingHi = Some 0 \<and> messages streamingHi \<noteq> [] \<and>
   isLoadingModel (step (SelectModel (str ''Llama-B'')) streamingHi) \<and>
   engine (step (SelectModel (str ''Llama-B'')) streamingHi) = None \<and>
   messages (step (SelectModel (str ''Llama-B'')) streamingHi) = []"
proof -
  have 1: "str ''Llama-B'' \<noteq> selectedModelId streamingHi"
    by (simp add: streamingHi_eq readyA_eq str_inj)
  have 2: "str ''Llama-B'' \<noteq> []"
    by (simp add: str_eq_Nil)
  from select_sets_loading [OF 1 2] 1 2 show ?thesis
    by (simp add: streamingHi_eq readyA_eq)
qed

text \<open>
  C7 as stated fails when the model selected is the one already selected. After a
  failed load of the first model, selecting it again starts no load: the loading
  flag stays false and the status still reports the failure. During the reply to
  \<open>Hello\<close> it leaves the engine published and the conversation in place.
\<close>

theorem select_same_model_counterexample:
  "\<not> isLoadingModel
       (step (SelectModel (str ''Llama-A'')) (run [LoadRejected 0 (str ''boom'')] (mount catalogueAB))) \<and>
   engineStatus
       (step (SelectModel (str ''Llama-A'')) (run [LoadRejected 0 (str ''boom'')] (mount catalogueAB))) =
     str ''Failed to load model: boom'' \<and>
   length (inits
       (step (SelectModel (str ''Llama-A'')) (run [LoadRejected 0 (str ''boom'')] (mount catalogueAB)))) = 1 \<and>
   engine (step (SelectModel (str ''Llama-A'')) streamingHi) = Some 0 \<and>
   messages (step (SelectModel (str ''Llama-A'')) streamingHi) \<noteq> []"
proof -
  have a: "run [LoadRejected 0 (str ''boom'')] (mount catalogueAB) =
           readyA\<lparr>engine := None, engineStatus := str ''Failed to load model: boom''\<rparr>"
    by (simp add: readyA_eq eval_defs)
  have b: "step (SelectModel (str ''Llama-A'')) streamingHi = streamingHi"
    by (simp add: streamingHi_eq readyA_eq step_def syncRef_def setSelectedModelId_def)
  show ?thesis
    unfolding a b
    by (simp add: streamingHi_eq readyA_eq step_def syncRef_def setSelectedModelId_def)
qed

section \<open>Runs of events\<close>

lemma run_append: "run (xs @ ys) s = run ys (run xs s)"
  by (induction xs arbitrary: s) simp_all

lemma streamEvent_keeps_empty:
  assumes "streamEvent e" and "messages s = []"
  shows "messages (step e s) = []"
  using streamEvent_messages [OF assms(1), of s] assms(2)
  by (auto simp: messages_step overwriteLast_Nil)

lemma streamEvents_keep_empty:
  "(\<forall>e\<in>set evs. streamEvent e) \<Longrightarrow> messages s = [] \<Longrightarrow> messages (run evs s) = []"
proof (induction evs arbitrary: s)
  case Nil
  then show ?case by simp
next
  case (Cons e evs)
  from Cons.prems have "messages (step e s) = []"
    by (simp add: streamEvent_keeps_empty)
  with Cons show ?case by simp
qed

section \<open>The final text\<close>

text \<open>
  C3, as the code has it. When \<open>getMessage\<close> resolves for a run of \<open>handleSend\<close>:
  a final text that is a non-empty string replaces the content of a trailing
  assistant message, whatever aggregate it held; an empty final text, or a result
  that is not a string, leaves the conversation as it was; \<open>isStreaming\<close> is false
  afterwards in every case.
\<close>

theorem final_text_overwrites_nonempty:
  assumes "g < length (sends s)"
  shows "(f \<noteq> [] \<and> messages s = ys @ [\<lparr>role = Assistant, content = a\<rparr>] \<longrightarrow>
            messages (step (StreamDone g (Some f)) s) = ys @ [\<lparr>role = Assistant, content = f\<rparr>]) \<and>
         messages (step (StreamDone g (Some [])) s) = messages s \<and>
         messages (step (StreamDone g None) s) = messages s \<and>
         \<not> isStreaming (step (StreamDone g finalReply) s)"
  using assms
  by (simp add: step_def syncRef_def streamDone_def overwriteLast_assistant)

theorem final_text_overwrites_nonempty_witness:
  "(0::nat) < length (sends streamingHi) \<and> str ''Hi there!'' \<noteq> [] \<and>
   messages streamingHi = [\<lparr>role = User, content = str ''Hello''\<rparr>] @ [\<lparr>role = Assistant, content = str ''Hi''\<rparr>] \<and>
   messages (step (StreamDone 0 (Some (str ''Hi there!''))) streamingHi) =
     [\<lparr>role = User, content = str ''Hello''\<rparr>] @ [\<lparr>role = Assistant, content = str ''Hi there!''\<rparr>]"
proof -
  have 1: "(0::nat) < length (sends streamingHi)"
    by (simp add: streamingHi_eq)
  have 2: "str ''Hi there!'' \<noteq> []"
    by (simp add: str_eq_Nil)
  have 3: "messages streamingHi =
             [\<lparr>role = User, content = str ''Hello''\<rparr>] @ [\<lparr>role = Assistant, content = str ''Hi''\<rparr>]"
    by (simp add: streamingHi_eq)
  from final_text_overwrites_nonempty [OF 1, of "str ''Hi there!''" "[\<lparr>role = User, content = str ''Hello''\<rparr>]" "str ''Hi''"] 1 2 3
  show ?thesis by blast
qed

text \<open>
  C3 as stated fails in two ways. After the chunk \<open>Hi\<close>, an empty final text leaves
  the trailing assistant message with the content \<open>Hi\<close>, which is not the final
  text. And after a reset during the stream there is no trailing assistant message
  to hold the final text: the conversation stays empty.
\<close>

theorem final_text_empty_counterexample:
  "content (last (messages (step (StreamDone 0 (Some [])) streamingHi))) \<noteq> [] \<and>
   messages (run [ResetClick, StreamDone 0 (Some (str ''Hi there!''))] streamingHi) = []"
  by (simp add: streamingHi_eq step_def syncRef_def streamDone_def handleReset_def
      overwriteLast_Nil str_eq_Nil)

section \<open>Reset\<close>

text \<open>
  C5, as the code has it. \<open>handleReset\<close> empties the conversation, sets the status
  text to its \<open>Conversation cleared\<close> message and leaves \<open>isStreaming\<close> and the
  pending runs of \<open>handleSend\<close> as they were; whatever a
  pending run writes afterwards finds no trailing assistant message, so the
  conversation stays empty.
\<close>

theorem reset_clears_conversation:
  "messages (step ResetClick s) = [] \<and>
   engineStatus (step ResetClick s) =
     str ''Conversation cleared. You can adjust rules and start again.'' \<and>
   isStreaming (step ResetClick s) = isStreaming s \<and>
   sends (step ResetClick s) = sends s \<and>
   ((\<forall>e\<in>set evs. streamEvent e) \<longrightarrow> messages (run evs (step ResetClick s)) = [])"
proof -
  have m: "messages (step ResetClick s) = []"
    by (simp add: step_def syncRef_def handleReset_def)
  have "isStreaming (step ResetClick s) = isStreaming s" "sends (step ResetClick s) = sends s"
    "engineStatus (step ResetClick s) =
       str ''Conversation cleared. You can adjust rules and start again.''"
    by (simp_all add: step_def syncRef_def handleReset_def)
  with m streamEvents_keep_empty [of evs "step ResetClick s"] show ?thesis
    by blast
qed

theorem reset_clears_conversation_witness:
  "list_all streamEvent [StreamChunk 0 (Some (str '' there'')), StreamDone 0 (Some (str ''Hi there!''))] \<and>
   messages streamingHi \<noteq> [] \<and>
   messages (run [StreamChunk 0 (Some (str '' there'')), StreamDone 0 (Some (str ''Hi there!''))]
      (step ResetClick streamingHi)) = []"
proof -
  have 1: "\<forall>e\<in>set [StreamChunk 0 (Some (str '' there'')), StreamDone 0 (Some (str ''Hi there!''))]. streamEvent e"
    by simp
  have 2: "messages streamingHi \<noteq> []"
    by (simp add: streamingHi_eq)
  have 3: "list_all streamEvent [StreamChunk 0 (Some (str '' there'')), StreamDone 0 (Some (str ''Hi there!''))]"
    by simp
  from reset_clears_conversation [of streamingHi "[StreamChunk 0 (Some (str '' there'')), StreamDone 0 (Some (str ''Hi there!''))]"] 1
  have "messages (run [StreamChunk 0 (Some (str '' there'')), StreamDone 0 (Some (str ''Hi there!''))]
      (step ResetClick streamingHi)) = []"
    by blast
  with 2 3 show ?thesis
    by (intro conjI)
qed

text \<open>
  C5 as stated fails on \<open>isStreaming\<close>: a reset while the reply to \<open>Hello\<close> is
  streaming leaves \<open>isStreaming\<close> true.
\<close>

theorem reset_keeps_streaming_counterexample:
  "isStreaming (step ResetClick streamingHi)"
  by (simp add: streamingHi_eq step_def syncRef_def handleReset_def)

section \<open>A model switch during a stream\<close>

lemma arrival_keeps_empty:
  assumes "arrival e" and "messages s = []"
  shows "messages (step e s) = []"
proof (cases "streamEvent e")
  case True
  then show ?thesis using assms(2) by (rule streamEvent_keeps_empty)
next
  case False
  with assms show ?thesis
    by (cases e)
       (simp_all add: step_def syncRef_def initProgressCallback_def loadResolved_def loadRejected_def)
qed

lemma arrivals_keep_empty:
  "(\<forall>e\<in>set evs. arrival e) \<Longrightarrow> messages s = [] \<Longrightarrow> messages (run evs s) = []"
proof (induction evs arbitrary: s)
  case Nil
  then show ?case by simp
next
  case (Cons e evs)
  from Cons.prems have "messages (step e s) = []"
    by (simp add: arrival_keeps_empty)
  with Cons show ?case by simp
qed

lemma no_engine_step:
  assumes "engine s = None \<longrightarrow> messages s = []"
  shows "engine (step e s) = None \<longrightarrow> messages (step e s) = []"
proof (cases e)
  case (SelectModel v)
  with assms show ?thesis
    by (auto simp: step_def syncRef_def setSelectedModelId_def modelEffect_def init_def
        runCleanup_def Let_def split: option.splits)
next
  case (StreamChunk g delta)
  with assms show ?thesis
    by (auto simp: step_def syncRef_def streamChunk_def Let_def overwriteLast_Nil)
next
  case (StreamDone g finalReply)
  with assms show ?thesis
    by (auto simp: step_def syncRef_def streamDone_def overwriteLast_Nil split: option.splits)
next
  case (StreamFailed g msg)
  with assms show ?thesis
    by (auto simp: step_def syncRef_def streamFailed_def overwriteLast_Nil)
next
  case EnterKey
  with assms show ?thesis
    by (auto simp: step_def syncRef_def canSend_def promptDisabled_def handleSend_def Let_def
        split: option.splits)
next
  case SendClick
  with assms show ?thesis
    by (auto simp: step_def syncRef_def canSend_def handleSend_def Let_def split: option.splits)
qed (use assms in \<open>auto simp: step_def syncRef_def initProgressCallback_def loadResolved_def
      loadRejected_def handleReset_def\<close>)

lemma no_engine_run:
  "(engine s = None \<longrightarrow> messages s = []) \<Longrightarrow>
   engine (run evs s) = None \<longrightarrow> messages (run evs s) = []"
proof (induction evs arbitrary: s)
  case Nil
  then show ?case by simp
next
  case (Cons e evs)
  from Cons.prems have "engine (step e s) = None \<longrightarrow> messages (step e s) = []"
    by (rule no_engine_step)
  then show ?case by (simp add: Cons.IH)
qed

lemma loadResolved_messages: "messages (step (LoadResolved k) s) = messages s"
  by (simp add: step_def syncRef_def loadResolved_def)

lemma select_messages:
  "v \<noteq> selectedModelId s \<Longrightarrow> v \<noteq> [] \<Longrightarrow> messages (step (SelectModel v) s) = []"
  by (simp add: step_def syncRef_def setSelectedModelId_def modelEffect_def init_def runCleanup_def
      split: option.splits)

text \<open>
  C1. After another model is selected, whatever arrives from pending work (the
  chunks, final text or error of a stale stream, the callbacks of any load) leaves
  the conversation empty; and under any events at all, as long as no engine has
  been published the conversation is empty, so it is empty at the moment the new
  model finishes loading.
\<close>

theorem stale_stream_after_model_switch:
  assumes "v \<noteq> selectedModelId s" and "v \<noteq> []"
  shows "((\<forall>e\<in>set evs. arrival e) \<longrightarrow> messages (run evs (step (SelectModel v) s)) = []) \<and>
         (engine (run evs (step (SelectModel v) s)) = None \<longrightarrow>
            messages (run evs (step (SelectModel v) s)) = [] \<and>
            messages (step (LoadResolved k) (run evs (step (SelectModel v) s))) = [])"
proof -
  have m: "messages (step (SelectModel v) s) = []"
    using assms by (rule select_messages)
  then have a: "(\<forall>e\<in>set evs. arrival e) \<longrightarrow> messages (run evs (step (SelectModel v) s)) = []"
    by (simp add: arrivals_keep_empty)
  from m have "engine (step (SelectModel v) s) = None \<longrightarrow> messages (step (SelectModel v) s) = []"
    by simp
  then have "engine (run evs (step (SelectModel v) s)) = None \<longrightarrow>
             messages (run evs (step (SelectModel v) s)) = []"
    by (rule no_engine_run)
  with a show ?thesis
    by (simp add: loadResolved_messages)
qed


theorem stale_stream_after_model_switch_witness:
  "str ''Llama-B'' \<noteq> selectedModelId streamingHi \<and> str ''Llama-B'' \<noteq> [] \<and>
   messages streamingHi \<noteq> [] \<and>
   list_all arrival
     [StreamChunk 0 (Some (str '' there'')), LoadResolved 1, StreamDone 0 (Some (str ''Hi there!''))] \<and>
   engine (run [StreamChunk 0 (Some (str '' there'')), LoadResolved 1, StreamDone 0 (Some (str ''Hi there!''))]
      (step (SelectModel (str ''Llama-B'')) streamingHi)) = Some 1 \<and>
   messages (run [StreamChunk 0 (Some (str '' there'')), LoadResolved 1, StreamDone 0 (Some (str ''Hi there!''))]
      (step (SelectModel (str ''Llama-B'')) streamingHi)) = [] \<and>
   engine (run [StreamChunk 0 (Some (str '' there'')), StreamDone 0 (Some (str ''Hi there!''))]
      (step (SelectModel (str ''Llama-B'')) streamingHi)) = None \<and>
   messages (step (LoadResolved 1)
      (run [StreamChunk 0 (Some (str '' there'')), StreamDone 0 (Some (str ''Hi there!''))]
         (step (SelectModel (str ''Llama-B'')) streamingHi))) = []"
proof -
  let ?mid = "[StreamChunk 0 (Some (str '' there'')), LoadResolved 1, StreamDone 0 (Some (str ''Hi there!''))]"
  let ?before = "[StreamChunk 0 (Some (str '' there'')), StreamDone 0 (Some (str ''Hi there!''))]"
  have 1: "str ''Llama-B'' \<noteq> selectedModelId streamingHi"
    by (simp add: streamingHi_eq readyA_eq str_inj)
  have 2: "str ''Llama-B'' \<noteq> []"
    by (simp add: str_eq_Nil)
  have 3: "\<forall>e\<in>set ?mid. arrival e"
    by simp
  have 4: "messages streamingHi \<noteq> []"
    by (simp add: streamingHi_eq)
  have 5: "engine (run ?mid (step (SelectModel (str ''Llama-B'')) streamingHi)) = Some 1"
    by (simp add: streamingHi_eq readyA_eq handler_defs overwriteLast_def Let_def str_simps)
  have 6: "engine (run ?before (step (SelectModel (str ''Llama-B'')) streamingHi)) = None"
    by (simp add: streamingHi_eq readyA_eq handler_defs overwriteLast_def Let_def str_simps)
  have 7: "list_all arrival ?mid"
    by simp
  from stale_stream_after_model_switch [OF 1 2, of ?mid] 3
  have 8: "messages (run ?mid (step (SelectModel (str ''Llama-B'')) streamingHi)) = []"
    by blast
  from stale_stream_after_model_switch [OF 1 2, of ?before 1] 6
  have 9: "messages (step (LoadResolved 1)
      (run ?before (step (SelectModel (str ''Llama-B'')) streamingHi))) = []"
    by blast
  from 1 2 4 7 5 8 6 9 show ?thesis
    by (intro conjI)
qed

section \<open>A submission from start to end\<close>

lemma streamed_Cons: "streamed g (e # es) = delta_of g e @ streamed g es"
  by (cases e) simp_all

lemma undisturbed_step:
  assumes "undisturbed g e" and "isStreaming t" and "g < length (sends t)"
    and "messages t = base @ [\<lparr>role = Assistant, content = a\<rparr>]"
    and "aggregate (sends t ! g) = a"
  shows "isStreaming (step e t) \<and> g < length (sends (step e t)) \<and>
         messages (step e t) = base @ [\<lparr>role = Assistant, content = a @ delta_of g e\<rparr>] \<and>
         aggregate (sends (step e t) ! g) = a @ delta_of g e"
proof (cases e)
  case (StreamChunk g' delta)
  with assms show ?thesis
    by (simp add: step_def syncRef_def streamChunk_def Let_def overwriteLast_assistant)
next
  case EnterKey
  with assms show ?thesis
    by (simp add: step_def syncRef_def promptDisabled_def)
next
  case SendClick
  with assms show ?thesis
    by (simp add: step_def syncRef_def canSend_def)
next
  case (InputChange v)
  with assms show ?thesis
    by (simp add: step_def syncRef_def promptDisabled_def)
qed (use assms in \<open>simp_all add: step_def syncRef_def initProgressCallback_def loadResolved_def
      loadRejected_def\<close>)

lemma undisturbed_run:
  assumes "\<forall>e\<in>set evs. undisturbed g e" and "isStreaming t" and "g < length (sends t)"
    and "messages t = base @ [\<lparr>role = Assistant, content = a\<rparr>]"
    and "aggregate (sends t ! g) = a"
  shows "isStreaming (run evs t) \<and> g < length (sends (run evs t)) \<and>
         messages (run evs t) = base @ [\<lparr>role = Assistant, content = a @ streamed g evs\<rparr>] \<and>
         aggregate (sends (run evs t) ! g) = a @ streamed g evs"
  using assms
proof (induction evs arbitrary: t a)
  case Nil
  then show ?case by simp
next
  case (Cons e evs)
  from Cons.prems have u: "undisturbed g e" and rest: "\<forall>e\<in>set evs. undisturbed g e"
    by simp_all
  note st = undisturbed_step [OF u Cons.prems(2) Cons.prems(3) Cons.prems(4) Cons.prems(5)]
  from Cons.IH [OF rest, of "step e t" "a @ delta_of g e"] st
  show ?case by (simp add: streamed_Cons)
qed

lemma send_starts:
  assumes "canSend s" and "conversationRef s = messages s"
  shows "isStreaming (step SendClick s) \<and>
         length (sends s) < length (sends (step SendClick s)) \<and>
         messages (step SendClick s) =
           (messages s @ [\<lparr>role = User, content = trim (userInput s)\<rparr>]) @
             [\<lparr>role = Assistant, content = []\<rparr>] \<and>
         aggregate (sends (step SendClick s) ! length (sends s)) = []"
  using assms
  by (auto simp: step_def syncRef_def canSend_def handleSend_def Let_def)

lemma streamDone_messages:
  assumes "g < length (sends t)" and "messages t = base @ [\<lparr>role = Assistant, content = a\<rparr>]"
  shows "messages (step (StreamDone g finalReply) t) =
           base @ [\<lparr>role = Assistant,
                    content = (case finalReply of None \<Rightarrow> a | Some f \<Rightarrow> if f \<noteq> [] then f else a)\<rparr>]"
  using assms
  by (simp add: step_def syncRef_def streamDone_def overwriteLast_assistant split: option.splits)

text \<open>
  C6, as the code has it. An accepted submission whose stream ends without error,
  with no reset, no model selection and no event of another stream in between (its
  own chunks and every other event may interleave), leaves the conversation as the
  one before it followed by exactly two messages: the user's trimmed prompt, then an
  assistant message holding the final text when that is a non-empty string and the
  concatenation of the streamed chunks otherwise.
\<close>

theorem submit_round_trip:
  assumes "canSend s" and "conversationRef s = messages s"
    and "\<forall>e\<in>set evs. undisturbed (length (sends s)) e"
  shows "messages (run (SendClick # evs @ [StreamDone (length (sends s)) finalReply]) s) =
           messages s @
             [\<lparr>role = User, content = trim (userInput s)\<rparr>,
              \<lparr>role = Assistant,
                content = (case finalReply of
                             None \<Rightarrow> streamed (length (sends s)) evs
                           | Some f \<Rightarrow> if f \<noteq> [] then f else streamed (length (sends s)) evs)\<rparr>]"
proof -
  let ?g = "length (sends s)"
  note st = send_starts [OF assms(1) assms(2)]
  from st have 1: "isStreaming (step SendClick s)" and 2: "?g < length (sends (step SendClick s))"
    and 3: "messages (step SendClick s) =
           (messages s @ [\<lparr>role = User, content = trim (userInput s)\<rparr>]) @
             [\<lparr>role = Assistant, content = []\<rparr>]"
    and 4: "aggregate (sends (step SendClick s) ! ?g) = []"
    by simp_all
  note r = undisturbed_run [OF assms(3) 1 2 3 4]
  from r have 5: "?g < length (sends (run evs (step SendClick s)))"
    and 6: "messages (run evs (step SendClick s)) =
           (messages s @ [\<lparr>role = User, content = trim (userInput s)\<rparr>]) @
             [\<lparr>role = Assistant, content = streamed ?g evs\<rparr>]"
    by simp_all
  have "run (SendClick # evs @ [StreamDone ?g finalReply]) s =
        step (StreamDone ?g finalReply) (run evs (step SendClick s))"
    by (simp add: run_append)
  with streamDone_messages [OF 5 6, of finalReply] show ?thesis
    by simp
qed


lemma canSend_typedHello: "canSend typedHello"
  by (simp add: canSend_def typedHello_eq readyA_eq trim_Hello str_eq_Nil)

theorem submit_round_trip_witness:
  "canSend typedHello \<and> conversationRef typedHello = messages typedHello \<and>
   list_all (undisturbed (length (sends typedHello)))
     [StreamChunk 0 (Some (str ''Hi'')), RulesChange (str ''Be brief.''),
      StreamChunk 0 (Some (str '' there''))] \<and>
   messages (run (SendClick #
        [StreamChunk 0 (Some (str ''Hi'')), RulesChange (str ''Be brief.''),
         StreamChunk 0 (Some (str '' there''))] @
        [StreamDone (length (sends typedHello)) (Some (str ''Hi there!''))]) typedHello) =
     [\<lparr>role = User, content = str ''Hello''\<rparr>, \<lparr>role = Assistant, content = str ''Hi there!''\<rparr>]"
proof -
  let ?evs = "[StreamChunk 0 (Some (str ''Hi'')), RulesChange (str ''Be brief.''),
               StreamChunk 0 (Some (str '' there''))]"
  have 1: "conversationRef typedHello = messages typedHello"
    by (simp add: typedHello_eq readyA_eq)
  have 2: "\<forall>e\<in>set ?evs. undisturbed (length (sends typedHello)) e"
    by (simp add: typedHello_eq readyA_eq)
  have 3: "messages typedHello = []" "userInput typedHello = str '' Hello ''"
    by (simp_all add: typedHello_eq readyA_eq)
  from 2 have 4: "list_all (undisturbed (length (sends typedHello))) ?evs"
    by (simp only: list_all_iff)
  from submit_round_trip [OF canSend_typedHello 1 2, of "Some (str ''Hi there!'')"]
  have "messages (run (SendClick # ?evs @
          [StreamDone (length (sends typedHello)) (Some (str ''Hi there!''))]) typedHello) =
        [\<lparr>role = User, content = str ''Hello''\<rparr>, \<lparr>role = Assistant, content = str ''Hi there!''\<rparr>]"
    by (simp add: 3 trim_Hello str_eq_Nil)
  with canSend_typedHello 1 4 show ?thesis
    by (intro conjI)
qed

text \<open>
  C6 as stated fails in two ways. A reset while the reply streams leaves the
  conversation empty once the stream has completed; and an empty final text leaves
  the streamed aggregate, not the final text, in the assistant message.
\<close>

theorem submit_round_trip_counterexample:
  "messages (run [SendClick, StreamChunk 0 (Some (str ''Hi'')), ResetClick,
                  StreamChunk 0 (Some (str '' there'')), StreamDone 0 (Some (str ''Hi there!''))]
              typedHello) \<noteq>
     messages typedHello @
       [\<lparr>role = User, content = str ''Hello''\<rparr>, \<lparr>role = Assistant, content = str ''Hi there!''\<rparr>] \<and>
   messages (run [SendClick, StreamChunk 0 (Some (str ''Hi'')), StreamDone 0 (Some [])] typedHello) \<noteq>
     messages typedHello @
       [\<lparr>role = User, content = str ''Hello''\<rparr>, \<lparr>role = Assistant, content = []\<rparr>]"
proof -
  have s: "run [SendClick, StreamChunk 0 (Some (str ''Hi''))] typedHello = streamingHi"
    by (simp add: streamingHi_def)
  have "run [SendClick, StreamChunk 0 (Some (str ''Hi'')), ResetClick,
             StreamChunk 0 (Some (str '' there'')), StreamDone 0 (Some (str ''Hi there!''))] typedHello =
        run [ResetClick, StreamChunk 0 (Some (str '' there'')), StreamDone 0 (Some (str ''Hi there!''))]
          (run [SendClick, StreamChunk 0 (Some (str ''Hi''))] typedHello)"
    by simp
  then have a: "messages (run [SendClick, StreamChunk 0 (Some (str ''Hi'')), ResetClick,
             StreamChunk 0 (Some (str '' there'')), StreamDone 0 (Some (str ''Hi there!''))] typedHello) = []"
    unfolding s
    by (simp add: streamingHi_eq step_def syncRef_def handleReset_def streamChunk_def streamDone_def
        overwriteLast_Nil Let_def str_eq_Nil)
  have "run [SendClick, StreamChunk 0 (Some (str ''Hi'')), StreamDone 0 (Some [])] typedHello =
        run [StreamDone 0 (Some [])] (run [SendClick, StreamChunk 0 (Some (str ''Hi''))] typedHello)"
    by simp
  then have b: "messages (run [SendClick, StreamChunk 0 (Some (str ''Hi'')), StreamDone 0 (Some [])] typedHello) =
     [\<lparr>role = User, content = str ''Hello''\<rparr>, \<lparr>role = Assistant, content = str ''Hi''\<rparr>]"
    unfolding s
    by (simp add: streamingHi_eq step_def syncRef_def streamDone_def)
  from a b show ?thesis by (simp add: str_eq_Nil)
qed

section \<open>Superseded loads\<close>























end
